theory Spec2Isabelle
  imports Complex_Main "HOL-Library.Word"
begin

section \<open>The Scalable Bloom Filter of scalable.go\<close>

text \<open>
  The file scalable.go implements the growth policy of a Scalable Bloom Filter: a
  slice of partitioned Bloom filters, the last of which receives every insertion, and
  to which a filter with a tighter false-positive target is appended when the last one
  is full.

  The translation follows the Go text function by function. Go's \<open>uint\<close> is a 64-bit
  word (its \<open>+\<close> wraps), \<open>[]byte\<close> is a list of 8-bit words, and \<open>float64\<close> is
  idealised as \<open>real\<close>: rounding, overflow to infinity and underflow to zero are not
  modelled in the functions of the series, and the one not-a-number the file itself can
  produce (the quotient \<open>0.0 / 0.0\<close> of \<open>FillRatio\<close> on a series with no filter) is
  written out as a value. The one expression whose rounding matters to a property, the
  target rate of \<open>addFilter\<close>, is evaluated a second time in binary64 arithmetic.
  A run-time panic of the Go code (an index out of range) is a value of type \<open>error\<close>.
  The slice holds pointers to filters that no other object shares, so it is a list of
  filter values and an in-place update of a filter is a list update.
\<close>

type_synonym uint = "64 word"
type_synonym bytes = "8 word list"

datatype error = IndexOutOfRange

subsection \<open>The partitioned filter and the package constant\<close>

text \<open>
  Modelled from the spec: the type \<open>PartitionedBloomFilter\<close>, its constructor
  \<open>NewPartitionedBloomFilter\<close>, its methods \<open>Capacity\<close>, \<open>K\<close>, \<open>FillRatio\<close>,
  \<open>EstimatedFillRatio\<close>, \<open>Test\<close> and \<open>Add\<close>, and the package constant \<open>fillRatio\<close>
  are used by scalable.go and declared elsewhere in the package. They are taken as
  parameters, with the signatures scalable.go uses them at (the Partitioned Filter
  Contract of the specification): the queries return a value, \<open>Add\<close> returns the
  filter after the insertion. The type \<open>'f\<close> is the state of one filter.
\<close>

record 'f package =
  NewPartitionedBloomFilter :: "uint \<Rightarrow> real \<Rightarrow> 'f"
  pbf_Capacity :: "'f \<Rightarrow> uint"
  pbf_K :: "'f \<Rightarrow> uint"
  pbf_FillRatio :: "'f \<Rightarrow> real"
  pbf_EstimatedFillRatio :: "'f \<Rightarrow> real"
  pbf_Test :: "'f \<Rightarrow> bytes \<Rightarrow> bool"
  pbf_Add :: "'f \<Rightarrow> bytes \<Rightarrow> 'f"
  fillRatio :: real

text \<open>
  Modelled from the spec: the promises of the Partitioned Filter Contract that the
  properties of the series rest on. \<open>test\<close> has zero false negatives for elements
  previously added: an element tests positive right after its insertion, and a positive
  answer survives every later insertion.
\<close>

definition zero_false_negatives :: "'f package \<Rightarrow> bool" where
  "zero_false_negatives E \<longleftrightarrow>
     (\<forall>f d. pbf_Test E (pbf_Add E f d) d) \<and>
     (\<forall>f d d'. pbf_Test E f d \<longrightarrow> pbf_Test E (pbf_Add E f d') d)"

text \<open>
  Modelled from the spec: a filter just constructed has no bit set, so it reports
  non-membership of every element.
\<close>

definition fresh_filter_empty :: "'f package \<Rightarrow> bool" where
  "fresh_filter_empty E \<longleftrightarrow> (\<forall>n q d. \<not> pbf_Test E (NewPartitionedBloomFilter E n q) d)"

text \<open>
  Modelled from the spec: \<open>capacity\<close> is the designed element capacity of a filter, fixed
  at its construction: an insertion does not change it.
\<close>

definition capacity_fixed :: "'f package \<Rightarrow> bool" where
  "capacity_fixed E \<longleftrightarrow> (\<forall>f d. pbf_Capacity E (pbf_Add E f d) = pbf_Capacity E f)"

text \<open>
  Modelled from the spec: one instance of the contract, used to run the model on concrete
  inputs. A filter remembers its construction parameters and the elements inserted; it
  answers exactly (no false positive), its capacity is its size hint and both fill
  ratios are the number of insertions over the size hint (0 for the size hint 0).
\<close>

record exact_filter =
  ef_n :: uint
  ef_fpRate :: real
  ef_items :: "bytes list"

definition exact_package :: "real \<Rightarrow> exact_filter package" where
  "exact_package threshold =
     \<lparr> NewPartitionedBloomFilter = (\<lambda>n q. \<lparr> ef_n = n, ef_fpRate = q, ef_items = [] \<rparr>),
       pbf_Capacity = ef_n,
       pbf_K = (\<lambda>f. 1),
       pbf_FillRatio = (\<lambda>f. real (length (ef_items f)) / real (unat (ef_n f))),
       pbf_EstimatedFillRatio = (\<lambda>f. real (length (ef_items f)) / real (unat (ef_n f))),
       pbf_Test = (\<lambda>f d. d \<in> set (ef_items f)),
       pbf_Add = (\<lambda>f d. f \<lparr> ef_items := d # ef_items f \<rparr>),
       fillRatio = threshold \<rparr>"

subsection \<open>The series\<close>

text \<open>The struct \<open>ScalableBloomFilter\<close>, field by field.\<close>

record 'f ScalableBloomFilter =
  filters :: "'f list"
  r :: real
  fp :: real
  p :: real
  hint :: uint

text \<open>
  \<open>addFilter\<close>: the target rate of the new filter is \<open>s.fp * math.Pow(s.r, len(s.filters))\<close>;
  the exponent is a slice length, so the power is the one of natural exponents.
\<close>

definition fpRate_at :: "'f ScalableBloomFilter \<Rightarrow> nat \<Rightarrow> real" where
  "fpRate_at s i = fp s * r s ^ i"

definition addFilter :: "'f package \<Rightarrow> 'f ScalableBloomFilter \<Rightarrow> 'f ScalableBloomFilter" where
  "addFilter E s =
     (let fpRate = fpRate_at s (length (filters s))
      in s \<lparr> filters := filters s @ [NewPartitionedBloomFilter E (hint s) fpRate] \<rparr>)"

definition NewScalableBloomFilter ::
  "'f package \<Rightarrow> uint \<Rightarrow> real \<Rightarrow> real \<Rightarrow> 'f ScalableBloomFilter" where
  "NewScalableBloomFilter E n fpRate ratio =
     addFilter E \<lparr> filters = [], r = ratio, fp = fpRate, p = fillRatio E, hint = n \<rparr>"

definition NewDefaultScalableBloomFilter :: "'f package \<Rightarrow> real \<Rightarrow> 'f ScalableBloomFilter" where
  "NewDefaultScalableBloomFilter E fpRate = NewScalableBloomFilter E 10000 fpRate (8 / 10)"

text \<open>\<open>Capacity\<close>: the loop adds the capacities from left to right, in \<open>uint\<close>.\<close>

definition Capacity :: "'f package \<Rightarrow> 'f ScalableBloomFilter \<Rightarrow> uint" where
  "Capacity E s = fold (\<lambda>bf capacity. capacity + pbf_Capacity E bf) (filters s) 0"

text \<open>\<open>K\<close> reads \<open>s.filters[0]\<close>, which panics on an empty slice.\<close>

definition K :: "'f package \<Rightarrow> 'f ScalableBloomFilter \<Rightarrow> error + uint" where
  "K E s = (case filters s of [] \<Rightarrow> Inl IndexOutOfRange | bf # _ \<Rightarrow> Inr (pbf_K E bf))"

text \<open>
  \<open>FillRatio\<close>: the loop sums the fill ratios from left to right; the sum is divided by
  the number of filters. On an empty slice the Go quotient is \<open>0.0 / 0.0\<close>, not a
  number and no panic: that result is \<open>NaN\<close>.
\<close>

datatype float64 = NaN | Float real

definition FillRatio :: "'f package \<Rightarrow> 'f ScalableBloomFilter \<Rightarrow> float64" where
  "FillRatio E s =
     (let sum = fold (\<lambda>filter sum. sum + pbf_FillRatio E filter) (filters s) 0
      in if length (filters s) = 0 then NaN else Float (sum / real (length (filters s))))"

text \<open>\<open>Test\<close>: the loop over the filters returns at the first positive answer.\<close>

fun Test_loop :: "'f package \<Rightarrow> 'f list \<Rightarrow> bytes \<Rightarrow> bool" where
  "Test_loop E [] data = False"
| "Test_loop E (bf # bfs) data = (if pbf_Test E bf data then True else Test_loop E bfs data)"

definition Test :: "'f package \<Rightarrow> 'f ScalableBloomFilter \<Rightarrow> bytes \<Rightarrow> bool" where
  "Test E s data = Test_loop E (filters s) data"

text \<open>
  \<open>Add\<close>: \<open>idx\<close> is an \<open>int\<close>, \<open>- 1\<close> on an empty slice, where \<open>s.filters[idx]\<close> panics.
  After \<open>addFilter\<close> the index \<open>idx + 1\<close> is the one of the appended filter.
\<close>

definition Add ::
  "'f package \<Rightarrow> 'f ScalableBloomFilter \<Rightarrow> bytes \<Rightarrow> error + 'f ScalableBloomFilter" where
  "Add E s data =
     (let idx = int (length (filters s)) - 1
      in if idx < 0 then Inl IndexOutOfRange
         else let (s', idx') =
                    (if pbf_EstimatedFillRatio E (filters s ! nat idx) \<ge> p s
                     then (addFilter E s, idx + 1) else (s, idx))
              in if nat idx' < length (filters s')
                 then Inr (s' \<lparr> filters := (filters s')[nat idx' := pbf_Add E (filters s' ! nat idx') data] \<rparr>)
                 else Inl IndexOutOfRange)"

definition TestAndAdd ::
  "'f package \<Rightarrow> 'f ScalableBloomFilter \<Rightarrow> bytes \<Rightarrow> error + (bool \<times> 'f ScalableBloomFilter)" where
  "TestAndAdd E s data =
     (let member = Test E s data
      in case Add E s data of Inl e \<Rightarrow> Inl e | Inr s' \<Rightarrow> Inr (member, s'))"

definition Reset :: "'f package \<Rightarrow> 'f ScalableBloomFilter \<Rightarrow> 'f ScalableBloomFilter" where
  "Reset E s = addFilter E (s \<lparr> filters := [] \<rparr>)"

subsection \<open>Sequences of calls\<close>

text \<open>
  The calls a client can make on a series that change or query its membership state,
  and the state they leave. A panic ends the run.
\<close>

datatype call = CallTest bytes | CallAdd bytes | CallTestAndAdd bytes | CallReset

fun call_state ::
  "'f package \<Rightarrow> 'f ScalableBloomFilter \<Rightarrow> call \<Rightarrow> error + 'f ScalableBloomFilter" where
  "call_state E s (CallTest data) = (let member = Test E s data in Inr s)"
| "call_state E s (CallAdd data) = Add E s data"
| "call_state E s (CallTestAndAdd data) =
     (case TestAndAdd E s data of Inl e \<Rightarrow> Inl e | Inr (member, s') \<Rightarrow> Inr s')"
| "call_state E s CallReset = Inr (Reset E s)"

fun calls ::
  "'f package \<Rightarrow> 'f ScalableBloomFilter \<Rightarrow> call list \<Rightarrow> error + 'f ScalableBloomFilter" where
  "calls E s [] = Inr s"
| "calls E s (c # cs) = (case call_state E s c of Inl e \<Rightarrow> Inl e | Inr s' \<Rightarrow> calls E s' cs)"

fun is_reset :: "call \<Rightarrow> bool" where
  "is_reset CallReset = True"
| "is_reset _ = False"

text \<open>
  A filter \<open>f\<close> descends from \<open>f0\<close> when it is \<open>f0\<close> after some insertions: what has
  become of a filter constructed as \<open>f0\<close>.
\<close>

inductive descends :: "'f package \<Rightarrow> 'f \<Rightarrow> 'f \<Rightarrow> bool" for E :: "'f package" and f0 :: 'f where
  descends_refl: "descends E f0 f0"
| descends_Add: "descends E f0 f \<Longrightarrow> descends E f0 (pbf_Add E f data)"

text \<open>
  The constructor the specification describes: parameters outside their ranges are
  refused with a configuration error. Written from the words of the specification, for
  comparison with \<open>NewScalableBloomFilter\<close>.
\<close>

datatype spec_error = ConfigurationError

definition valid_parameters :: "uint \<Rightarrow> real \<Rightarrow> real \<Rightarrow> bool" where
  "valid_parameters n fpRate ratio \<longleftrightarrow> 0 < n \<and> 0 < fpRate \<and> fpRate < 1 \<and> 0 < ratio \<and> ratio < 1"

definition spec_construct ::
  "'f package \<Rightarrow> uint \<Rightarrow> real \<Rightarrow> real \<Rightarrow> spec_error + 'f ScalableBloomFilter" where
  "spec_construct E n fpRate ratio =
     (if valid_parameters n fpRate ratio
      then Inr \<lparr> filters = [NewPartitionedBloomFilter E n fpRate],
                 r = ratio, fp = fpRate, p = fillRatio E, hint = n \<rparr>
      else Inl ConfigurationError)"

text \<open>
  Two states have the same configuration when they agree on the four scalar fields of
  the struct.
\<close>

definition same_configuration :: "'f ScalableBloomFilter \<Rightarrow> 'f ScalableBloomFilter \<Rightarrow> bool" where
  "same_configuration s s' \<longleftrightarrow> r s' = r s \<and> fp s' = fp s \<and> p s' = p s \<and> hint s' = hint s"


text \<open>
  Concrete inputs, on the exact instance with fill threshold one half: the series
  constructed with size hint 2, target rate 0.01 and tightening ratio 0.8, the same
  after the insertion of the element \<open>[1]\<close> (its only filter is then half full), and
  after the further insertion of \<open>[2]\<close>, which appended a second filter.
\<close>

definition demo :: "exact_filter package" where
  "demo = exact_package (1 / 2)"

definition demo_new :: "exact_filter ScalableBloomFilter" where
  "demo_new = \<lparr> filters = [\<lparr> ef_n = 2, ef_fpRate = 1 / 100, ef_items = [] \<rparr>],
                r = 8 / 10, fp = 1 / 100, p = 1 / 2, hint = 2 \<rparr>"

definition demo_full :: "exact_filter ScalableBloomFilter" where
  "demo_full = \<lparr> filters = [\<lparr> ef_n = 2, ef_fpRate = 1 / 100, ef_items = [[1]] \<rparr>],
                 r = 8 / 10, fp = 1 / 100, p = 1 / 2, hint = 2 \<rparr>"

definition demo_grown :: "exact_filter ScalableBloomFilter" where
  "demo_grown = \<lparr> filters = [\<lparr> ef_n = 2, ef_fpRate = 1 / 100, ef_items = [[1]] \<rparr>,
                             \<lparr> ef_n = 2, ef_fpRate = 1 / 125, ef_items = [[2]] \<rparr>],
                  r = 8 / 10, fp = 1 / 100, p = 1 / 2, hint = 2 \<rparr>"

subsection \<open>The target rate in binary64\<close>

text \<open>
  Go evaluates \<open>s.fp * math.Pow(s.r, float64(len(s.filters)))\<close> in \<open>float64\<close>, the binary64
  format of IEEE 754: numbers \<open>m * 2 ^ (e - 52)\<close> with an integer \<open>m\<close> of at most 53 bits
  and \<open>e\<close> from \<open>- 1022\<close> on, and below \<open>2 ^ - 1022\<close> the multiples of \<open>2 ^ - 1074\<close>.
  An operation returns the number of the format nearest to the exact result, the one
  with the even \<open>m\<close> when two are equally near. Results of magnitude \<open>2 ^ 1024\<close> and above,
  which overflow to infinity, are outside what is defined here; a product of two numbers
  between 0 and 1 is never one.
\<close>

definition pow2 :: "int \<Rightarrow> real" where
  "pow2 e = 2 powr of_int e"

text \<open>The integer nearest to \<open>y\<close>, the even one at a tie.\<close>

definition round_ties_even :: "real \<Rightarrow> int" where
  "round_ties_even y =
     (let f = \<lfloor>y\<rfloor>; d = y - of_int f
      in if d < 1 / 2 then f else if 1 / 2 < d then f + 1 else if even f then f else f + 1)"

text \<open>The distance between neighbouring binary64 numbers at the magnitude of \<open>x\<close>.\<close>

definition float64_ulp :: "real \<Rightarrow> real" where
  "float64_ulp x =
     (if \<bar>x\<bar> < pow2 (- 1022) then pow2 (- 1074) else pow2 (\<lfloor>log 2 \<bar>x\<bar>\<rfloor> - 52))"

definition float64_round :: "real \<Rightarrow> real" where
  "float64_round x = float64_ulp x * of_int (round_ties_even (x / float64_ulp x))"






section \<open>Properties\<close>

subsection \<open>What each function computes\<close>

lemma filters_addFilter:
  "filters (addFilter E s) =
     filters s @ [NewPartitionedBloomFilter E (hint s) (fpRate_at s (length (filters s)))]"
  by (simp add: addFilter_def)

lemma fields_addFilter:
  "r (addFilter E s) = r s" "fp (addFilter E s) = fp s" "p (addFilter E s) = p s"
  "hint (addFilter E s) = hint s"
  by (simp_all add: addFilter_def)

lemma Add_empty: "filters s = [] \<Longrightarrow> Add E s data = Inl IndexOutOfRange"
  by (simp add: Add_def)

lemma nth_length_minus_one: "xs \<noteq> [] \<Longrightarrow> xs ! (length xs - Suc 0) = last xs"
  by (cases xs rule: rev_cases) simp_all

lemma update_length_minus_one: "xs \<noteq> [] \<Longrightarrow> xs[length xs - Suc 0 := x] = butlast xs @ [x]"
  by (cases xs rule: rev_cases) simp_all

lemma Add_grow:
  assumes "filters s \<noteq> []" "pbf_EstimatedFillRatio E (last (filters s)) \<ge> p s"
  shows "Add E s data =
     Inr (s \<lparr> filters := filters s @
            [pbf_Add E (NewPartitionedBloomFilter E (hint s) (fpRate_at s (length (filters s)))) data] \<rparr>)"
proof -
  from assms(1) have len: "0 < length (filters s)" by simp
  have idx: "nat (int (length (filters s)) - 1) = length (filters s) - Suc 0"
    using len by simp
  have idx': "nat (int (length (filters s)) - 1 + 1) = length (filters s)" by simp
  show ?thesis
    using len assms
    by (simp add: Add_def Let_def idx nth_length_minus_one idx' filters_addFilter addFilter_def)
qed

lemma Add_keep:
  assumes "filters s \<noteq> []" "\<not> pbf_EstimatedFillRatio E (last (filters s)) \<ge> p s"
  shows "Add E s data =
     Inr (s \<lparr> filters := butlast (filters s) @ [pbf_Add E (last (filters s)) data] \<rparr>)"
proof -
  from assms(1) have len: "0 < length (filters s)" by simp
  have idx: "nat (int (length (filters s)) - 1) = length (filters s) - Suc 0"
    using len by simp
  show ?thesis
    using len assms
    by (simp add: Add_def Let_def idx nth_length_minus_one update_length_minus_one)
qed

lemma Test_loop_iff: "Test_loop E bfs data \<longleftrightarrow> (\<exists>bf \<in> set bfs. pbf_Test E bf data)"
  by (induction bfs) auto

lemma Add_nonempty:
  assumes "filters s \<noteq> []"
  shows "\<exists>s'. Add E s data = Inr s' \<and> filters s' \<noteq> [] \<and> same_configuration s s'"
proof (cases "pbf_EstimatedFillRatio E (last (filters s)) \<ge> p s")
  case True
  then show ?thesis using Add_grow [OF assms True] by (simp add: same_configuration_def)
next
  case False
  then show ?thesis using Add_keep [OF assms False] by (simp add: same_configuration_def)
qed

lemma Add_InrD:
  assumes "Add E s data = Inr s'"
  shows "filters s \<noteq> []" and "filters s' \<noteq> []" and "same_configuration s s'"
proof -
  show ne: "filters s \<noteq> []" using assms by (auto simp: Add_empty)
  from Add_nonempty [OF ne, of E data] assms
  show "filters s' \<noteq> []" and "same_configuration s s'" by auto
qed

lemma Reset_eq:
  "Reset E s = s \<lparr> filters := [NewPartitionedBloomFilter E (hint s) (fp s)] \<rparr>"
  by (simp add: Reset_def addFilter_def fpRate_at_def)

lemma NewScalableBloomFilter_eq:
  "NewScalableBloomFilter E n fpRate ratio =
     \<lparr> filters = [NewPartitionedBloomFilter E n fpRate],
       r = ratio, fp = fpRate, p = fillRatio E, hint = n \<rparr>"
  by (simp add: NewScalableBloomFilter_def addFilter_def fpRate_at_def)

lemma call_state_nonempty:
  assumes "filters s \<noteq> []"
  shows "\<exists>s'. call_state E s c = Inr s' \<and> filters s' \<noteq> [] \<and> same_configuration s s'"
proof (cases c)
  case (CallTest d)
  then show ?thesis using assms by (simp add: same_configuration_def)
next
  case (CallAdd d)
  then show ?thesis using Add_nonempty [OF assms, of E d] by simp
next
  case (CallTestAndAdd d)
  then show ?thesis using Add_nonempty [OF assms, of E d] by (auto simp: TestAndAdd_def)
next
  case CallReset
  then show ?thesis by (simp add: Reset_eq same_configuration_def)
qed

lemma same_configuration_trans:
  "same_configuration s s' \<Longrightarrow> same_configuration s' s'' \<Longrightarrow> same_configuration s s''"
  by (simp add: same_configuration_def)

lemma calls_nonempty:
  "filters s \<noteq> [] \<Longrightarrow>
   \<exists>s'. calls E s cs = Inr s' \<and> filters s' \<noteq> [] \<and> same_configuration s s'"
proof (induction cs arbitrary: s)
  case Nil
  then show ?case by (simp add: same_configuration_def)
next
  case (Cons c cs)
  from call_state_nonempty [OF Cons.prems, of E c]
  obtain s1 where s1: "call_state E s c = Inr s1" "filters s1 \<noteq> []" "same_configuration s s1"
    by blast
  from Cons.IH [OF s1(2)]
  obtain s2 where s2: "calls E s1 cs = Inr s2" "filters s2 \<noteq> []" "same_configuration s1 s2"
    by blast
  show ?case using s1 s2 by (auto intro: same_configuration_trans)
qed

lemma calls_append:
  "calls E s (cs @ ds) = (case calls E s cs of Inl e \<Rightarrow> Inl e | Inr s' \<Rightarrow> calls E s' ds)"
  by (induction cs arbitrary: s) (auto split: sum.splits)

lemma filters_New_nonempty: "filters (NewScalableBloomFilter E n fpRate ratio) \<noteq> []"
  by (simp add: NewScalableBloomFilter_eq)

lemma calls_New:
  "\<exists>s'. calls E (NewScalableBloomFilter E n fpRate ratio) cs = Inr s' \<and> filters s' \<noteq> []
        \<and> same_configuration (NewScalableBloomFilter E n fpRate ratio) s'"
  by (rule calls_nonempty) (rule filters_New_nonempty)

lemma reachable:
  assumes "calls E (NewScalableBloomFilter E n fpRate ratio) cs = Inr s"
  shows "filters s \<noteq> []" and "r s = ratio" and "fp s = fpRate" and "p s = fillRatio E"
    and "hint s = n"
  using calls_New [of E n fpRate ratio cs] assms
  by (auto simp: same_configuration_def NewScalableBloomFilter_eq)

text \<open>The equations that evaluate the concrete inputs.\<close>

lemmas demo_defs = demo_def exact_package_def demo_new_def demo_full_def demo_grown_def
  NewScalableBloomFilter_eq Add_def addFilter_def fpRate_at_def

subsection \<open>No false negatives\<close>

lemma Test_Add_same:
  assumes "zero_false_negatives E" "Add E s data = Inr s'"
  shows "Test E s' data"
proof -
  have ne: "filters s \<noteq> []" using assms(2) by (rule Add_InrD)
  have hit: "pbf_Test E (pbf_Add E f data) data" for f
    using assms(1) by (simp add: zero_false_negatives_def)
  show ?thesis
  proof (cases "pbf_EstimatedFillRatio E (last (filters s)) \<ge> p s")
    case True
    with Add_grow [OF ne True, of data] assms(2) hit show ?thesis
      by (auto simp: Test_def Test_loop_iff)
  next
    case False
    with Add_keep [OF ne False, of data] assms(2) hit show ?thesis
      by (auto simp: Test_def Test_loop_iff)
  qed
qed

lemma Test_Add_other:
  assumes "zero_false_negatives E" "Test E s e" "Add E s data = Inr s'"
  shows "Test E s' e"
proof -
  have ne: "filters s \<noteq> []" using assms(3) by (rule Add_InrD)
  have keep: "pbf_Test E f e \<Longrightarrow> pbf_Test E (pbf_Add E f data) e" for f
    using assms(1) by (simp add: zero_false_negatives_def)
  from assms(2) obtain bf where bf: "bf \<in> set (filters s)" "pbf_Test E bf e"
    by (auto simp: Test_def Test_loop_iff)
  show ?thesis
  proof (cases "pbf_EstimatedFillRatio E (last (filters s)) \<ge> p s")
    case True
    with Add_grow [OF ne True, of data] assms(3) bf show ?thesis
      by (auto simp: Test_def Test_loop_iff)
  next
    case False
    have split: "filters s = butlast (filters s) @ [last (filters s)]"
      using ne by simp
    from bf(1) have "bf \<in> set (butlast (filters s)) \<or> bf = last (filters s)"
      by (subst (asm) split) auto
    with Add_keep [OF ne False, of data] assms(3) bf(2) keep show ?thesis
      by (auto simp: Test_def Test_loop_iff)
  qed
qed

lemma Test_call_state:
  assumes "zero_false_negatives E" "Test E s e" "\<not> is_reset c" "call_state E s c = Inr s'"
  shows "Test E s' e"
proof (cases c)
  case (CallTest d)
  then show ?thesis using assms by simp
next
  case (CallAdd d)
  then show ?thesis using assms Test_Add_other [of E s e d s'] by simp
next
  case (CallTestAndAdd d)
  then show ?thesis using assms Test_Add_other [of E s e d s']
    by (auto simp: TestAndAdd_def split: sum.splits)
next
  case CallReset
  then show ?thesis using assms by simp
qed

lemma Test_calls:
  "zero_false_negatives E \<Longrightarrow> Test E s e \<Longrightarrow> \<not> list_ex is_reset cs \<Longrightarrow>
   calls E s cs = Inr s' \<Longrightarrow> Test E s' e"
proof (induction cs arbitrary: s)
  case Nil
  then show ?case by simp
next
  case (Cons c cs)
  from Cons.prems(4) obtain s1 where s1: "call_state E s c = Inr s1" "calls E s1 cs = Inr s'"
    by (auto split: sum.splits)
  from Cons.prems(3) have nr: "\<not> is_reset c" "\<not> list_ex is_reset cs" by simp_all
  have "Test E s1 e" using Test_call_state [OF Cons.prems(1,2) nr(1) s1(1)] .
  then show ?case using Cons.IH [OF Cons.prems(1) _ nr(2) s1(2)] by simp
qed

text \<open>
  C1. Under the zero-false-negatives contract of the partitioned filter, whatever calls
  led to a state of a constructed series, once \<open>Add\<close> has inserted an element \<open>e\<close>,
  any further sequence of \<open>Test\<close>, \<open>Add\<close> and \<open>TestAndAdd\<close> calls (of any elements,
  appending new filters or not) runs without a panic and leaves a state in which
  \<open>Test\<close> of \<open>e\<close> is true.
\<close>

theorem no_false_negatives:
  assumes "zero_false_negatives E" and "\<not> list_ex is_reset post"
  shows "\<exists>s'. calls E (NewScalableBloomFilter E n fpRate ratio) (pre @ CallAdd e # post) = Inr s'
            \<and> Test E s' e"
proof -
  from calls_New [of E n fpRate ratio "pre @ CallAdd e # post"]
  obtain s' where s': "calls E (NewScalableBloomFilter E n fpRate ratio) (pre @ CallAdd e # post) = Inr s'"
    by blast
  then obtain s0 s1 where steps: "calls E (NewScalableBloomFilter E n fpRate ratio) pre = Inr s0"
      "Add E s0 e = Inr s1" "calls E s1 post = Inr s'"
    by (auto simp: calls_append split: sum.splits)
  have "Test E s1 e" using Test_Add_same [OF assms(1) steps(2)] .
  then have "Test E s' e" using Test_calls [OF assms(1) _ assms(2) steps(3)] by simp
  with s' show ?thesis by blast
qed

theorem no_false_negatives_witness:
  "zero_false_negatives (exact_package (1 / 2)) \<and>
   \<not> list_ex is_reset [CallAdd [2], CallTest [1], CallTestAndAdd [3]] \<and>
   (\<exists>s'. calls (exact_package (1 / 2)) (NewScalableBloomFilter (exact_package (1 / 2)) 2 (1 / 100) (8 / 10))
           ([CallAdd [7], CallReset] @ CallAdd [1] # [CallAdd [2], CallTest [1], CallTestAndAdd [3]]) = Inr s'
         \<and> Test (exact_package (1 / 2)) s' [1])"
proof -
  have contract: "zero_false_negatives (exact_package (1 / 2))"
    by (simp add: zero_false_negatives_def exact_package_def)
  have later: "\<not> list_ex is_reset [CallAdd [2], CallTest [1], CallTestAndAdd [3]]"
    by simp
  from no_false_negatives [OF contract later] contract later show ?thesis
    by blast
qed

subsection \<open>The filters are never empty\<close>

text \<open>
  C8. Whatever sequence of \<open>Test\<close>, \<open>Add\<close>, \<open>TestAndAdd\<close> and \<open>Reset\<close> calls is made on
  a constructed series, the run does not panic and the state it reaches has at least
  one filter; there \<open>K\<close> returns the hash count of the filter at index 0, \<open>Add\<close> and
  \<open>TestAndAdd\<close> of any element return, and \<open>FillRatio\<close> is not the quotient by zero.
\<close>

theorem filters_never_empty:
  "\<exists>s. calls E (NewScalableBloomFilter E n fpRate ratio) cs = Inr s \<and>
       filters s \<noteq> [] \<and>
       K E s = Inr (pbf_K E (filters s ! 0)) \<and>
       (\<forall>data. \<exists>s'. Add E s data = Inr s' \<and> filters s' \<noteq> []) \<and>
       (\<forall>data. \<exists>b s'. TestAndAdd E s data = Inr (b, s')) \<and>
       FillRatio E s \<noteq> NaN"
proof -
  from calls_New [of E n fpRate ratio cs]
  obtain s where s: "calls E (NewScalableBloomFilter E n fpRate ratio) cs = Inr s" "filters s \<noteq> []"
    by blast
  have k: "K E s = Inr (pbf_K E (filters s ! 0))"
    using s(2) by (cases "filters s") (simp_all add: K_def)
  have add: "\<exists>s'. Add E s data = Inr s' \<and> filters s' \<noteq> []" for data
    using Add_nonempty [OF s(2), of E data] by blast
  then have taa: "\<exists>b s'. TestAndAdd E s data = Inr (b, s')" for data
    by (metis TestAndAdd_def sum.simps(6))
  have fr: "FillRatio E s \<noteq> NaN"
    using s(2) by (simp add: FillRatio_def Let_def)
  from s k add taa fr show ?thesis by blast
qed

theorem filters_never_empty_witness:
  "calls demo (NewScalableBloomFilter demo 2 (1 / 100) (8 / 10)) [CallAdd [1], CallAdd [2]] = Inr demo_grown \<and>
   filters demo_grown \<noteq> [] \<and> K demo demo_grown = Inr 1 \<and> FillRatio demo demo_grown \<noteq> NaN"
proof -
  have run: "calls demo (NewScalableBloomFilter demo 2 (1 / 100) (8 / 10)) [CallAdd [1], CallAdd [2]] = Inr demo_grown"
    by (simp add: demo_defs)
  have k: "pbf_K demo (filters demo_grown ! 0) = 1"
    by (simp add: demo_defs)
  from filters_never_empty [of demo 2 "1 / 100" "8 / 10" "[CallAdd [1], CallAdd [2]]"] run k
  show ?thesis by auto
qed

subsection \<open>Geometric target rates\<close>








subsection \<open>Target rates in binary64\<close>

lemma pow2_pos: "0 < pow2 e"
  by (simp add: pow2_def)

lemma pow2_add: "pow2 (a + b) = pow2 a * pow2 b"
  by (simp add: pow2_def powr_add)


lemma pow2_mono: "a \<le> b \<Longrightarrow> pow2 a \<le> pow2 b"
  by (simp add: pow2_def)

lemma pow2_strict_mono: "a < b \<Longrightarrow> pow2 a < pow2 b"
  by (simp add: pow2_def)

lemma pow2_nat: "pow2 (int n) = 2 ^ n"
  by (simp add: pow2_def powr_realpow)

lemma pow2_neg_nat: "pow2 (- int n) = 1 / 2 ^ n"
  by (simp add: pow2_def powr_minus powr_realpow divide_inverse)

lemma pow2_divide: "pow2 a / pow2 b = pow2 (a - b)"
  by (simp add: pow2_def powr_diff)

lemma floor_log2:
  assumes "pow2 e \<le> x" "x < pow2 (e + 1)"
  shows "\<lfloor>log 2 x\<rfloor> = e"
proof -
  have "0 < x" using assms(1) pow2_pos [of e] by linarith
  then show ?thesis using assms by (simp add: floor_log_eq_powr_iff pow2_def)
qed

lemma round_ties_even_of_int: "round_ties_even (of_int m) = m"
  by (simp add: round_ties_even_def)

lemma round_ties_even_small:
  assumes "0 \<le> y" "y < 1 / 2"
  shows "round_ties_even y = 0"
proof -
  have "\<lfloor>y\<rfloor> = 0" using assms by (simp add: floor_eq_iff)
  then show ?thesis using assms(2) by (simp add: round_ties_even_def)
qed

lemma float64_round_normal:
  assumes "- 1022 \<le> e" "pow2 e \<le> \<bar>x\<bar>" "\<bar>x\<bar> < pow2 (e + 1)"
    and "round_ties_even (x / pow2 (e - 52)) = k"
  shows "float64_round x = pow2 (e - 52) * of_int k"
proof -
  have "pow2 (- 1022) \<le> \<bar>x\<bar>"
    using pow2_mono [OF assms(1)] assms(2) by linarith
  then have "float64_ulp x = pow2 (e - 52)"
    using floor_log2 [OF assms(2,3)] by (simp add: float64_ulp_def)
  then show ?thesis using assms(4) by (simp add: float64_round_def)
qed

lemma float64_round_tiny:
  assumes "0 \<le> x" "x < pow2 (- 1075)"
  shows "float64_round x = 0"
proof -
  have "pow2 (- 1075) < pow2 (- 1022)" by (rule pow2_strict_mono) simp
  then have u: "float64_ulp x = pow2 (- 1074)"
    using assms by (simp add: float64_ulp_def)
  have "x / pow2 (- 1074) < pow2 (- 1075) / pow2 (- 1074)"
    using assms(2) pow2_pos [of "- 1074"] by (simp add: divide_strict_right_mono)
  also have "pow2 (- 1075) / pow2 (- 1074) = pow2 (- int 1)"
    by (simp add: pow2_divide)
  also have "\<dots> = 1 / 2" by (simp only: pow2_neg_nat) simp
  finally have small: "x / pow2 (- 1074) < 1 / 2" .
  have nonneg: "0 \<le> x / pow2 (- 1074)"
    using assms(1) pow2_pos [of "- 1074"] by simp
  have "round_ties_even (x / pow2 (- 1074)) = 0"
    using nonneg small by (rule round_ties_even_small)
  then show ?thesis by (simp add: float64_round_def u)
qed

lemma float64_round_pow2:
  assumes "- 1022 \<le> e"
  shows "float64_round (pow2 e) = pow2 e"
proof -
  have q: "pow2 e / pow2 (e - 52) = of_int (2 ^ 52)"
    using pow2_nat [of 52] by (simp add: pow2_divide)
  have "float64_round (pow2 e) = pow2 (e - 52) * of_int (2 ^ 52)"
  proof (rule float64_round_normal [OF assms])
    show "pow2 e \<le> \<bar>pow2 e\<bar>" using pow2_pos [of e] by simp
    show "\<bar>pow2 e\<bar> < pow2 (e + 1)" using pow2_pos [of e] pow2_strict_mono [of e "e + 1"] by simp
    show "round_ties_even (pow2 e / pow2 (e - 52)) = 2 ^ 52"
      by (simp only: q round_ties_even_of_int)
  qed
  also have "\<dots> = pow2 (e - 52) * pow2 (int 52)"
    by (simp only: pow2_nat) simp
  also have "\<dots> = pow2 e" by (simp add: pow2_add [symmetric])
  finally show ?thesis .
qed











subsection \<open>Construction\<close>

text \<open>
  The constructor of the specification refuses the size hint 0, here with the rate 0.25
  and the ratio 0.5; \<open>NewScalableBloomFilter\<close> returns a series of one filter for them.
\<close>

theorem construction_rejects_nothing_counterexample:
  "\<not> valid_parameters 0 (1 / 4) (1 / 2) \<and>
   spec_construct demo 0 (1 / 4) (1 / 2) = Inl ConfigurationError \<and>
   NewScalableBloomFilter demo 0 (1 / 4) (1 / 2) =
     \<lparr> filters = [\<lparr> ef_n = 0, ef_fpRate = 1 / 4, ef_items = [] \<rparr>],
       r = 1 / 2, fp = 1 / 4, p = 1 / 2, hint = 0 \<rparr> \<and>
   spec_construct demo 0 (1 / 4) (1 / 2) \<noteq> Inr (NewScalableBloomFilter demo 0 (1 / 4) (1 / 2))"
  by (simp add: valid_parameters_def spec_construct_def demo_defs)

text \<open>
  C3, as amended. \<open>NewScalableBloomFilter\<close> checks none of its parameters and has no
  configuration error of its own: it stores the size hint, the rate and the ratio as
  given, takes the package constant as fill threshold, and hands the size hint and the
  rate to \<open>NewPartitionedBloomFilter\<close>. Whenever that call returns a filter \<open>f\<close>, the
  result is the series that holds exactly \<open>f\<close> and these values, and it is the result
  of the constructor of the specification exactly when the parameters are the ones the
  specification calls valid. What \<open>NewPartitionedBloomFilter\<close> does with parameters it
  cannot serve is no part of the statement.
\<close>

theorem construction_validates_nothing:
  assumes "NewPartitionedBloomFilter E n fpRate = f"
  shows "NewScalableBloomFilter E n fpRate ratio =
           \<lparr> filters = [f], r = ratio, fp = fpRate, p = fillRatio E, hint = n \<rparr> \<and>
         (spec_construct E n fpRate ratio = Inr (NewScalableBloomFilter E n fpRate ratio)
            \<longleftrightarrow> valid_parameters n fpRate ratio)"
  using assms by (simp add: NewScalableBloomFilter_eq spec_construct_def)

theorem construction_validates_nothing_witness:
  "NewPartitionedBloomFilter demo 2 (1 / 100) = \<lparr> ef_n = 2, ef_fpRate = 1 / 100, ef_items = [] \<rparr> \<and>
   valid_parameters 2 (1 / 100) (8 / 10) \<and>
   spec_construct demo 2 (1 / 100) (8 / 10) = Inr demo_new \<and>
   NewScalableBloomFilter demo 2 (1 / 100) (8 / 10) = demo_new"
proof -
  have returns: "NewPartitionedBloomFilter demo 2 (1 / 100) =
      \<lparr> ef_n = 2, ef_fpRate = 1 / 100, ef_items = [] \<rparr>"
    by (simp add: demo_defs)
  have valid: "valid_parameters 2 (1 / 100) (8 / 10)"
    by (simp add: valid_parameters_def)
  have "demo_new = \<lparr> filters = [\<lparr> ef_n = 2, ef_fpRate = 1 / 100, ef_items = [] \<rparr>],
      r = 8 / 10, fp = 1 / 100, p = fillRatio demo, hint = 2 \<rparr>"
    by (simp add: demo_defs)
  with construction_validates_nothing [OF returns, of "8 / 10"] returns valid show ?thesis
    by simp
qed

subsection \<open>Growth\<close>

lemma fold_plus_sum_list:
  "fold (\<lambda>x acc. acc + g x) xs a = a + sum_list (map g xs)"
  for a :: "'a :: comm_monoid_add"
  by (induction xs arbitrary: a) (simp_all add: add.assoc)

lemma Capacity_sum: "Capacity E s = sum_list (map (pbf_Capacity E) (filters s))"
  by (simp add: Capacity_def fold_plus_sum_list)

lemma word_less_add:
  fixes a c :: uint
  assumes "0 < c" "unat a + unat c < 2 ^ 64"
  shows "a < a + c"
proof -
  have "unat (a + c) = unat a + unat c"
    using assms(2) by (simp add: unat_add_lem [THEN iffD1])
  moreover have "0 < unat c" using assms(1) by (simp add: word_less_nat_alt)
  ultimately show ?thesis by (simp add: word_less_nat_alt)
qed

lemma growth_when_full:
  assumes ne: "filters s \<noteq> []" and full: "pbf_EstimatedFillRatio E (last (filters s)) \<ge> p s"
  shows "\<exists>s' new. new = NewPartitionedBloomFilter E (hint s) (fpRate_at s (length (filters s))) \<and>
           Add E s data = Inr s' \<and>
           filters (addFilter E s) = filters s @ [new] \<and>
           filters s' = filters s @ [pbf_Add E new data] \<and>
           Capacity E (addFilter E s) = Capacity E s + pbf_Capacity E new \<and>
           (capacity_fixed E \<longrightarrow> Capacity E s' = Capacity E s + pbf_Capacity E new)"
  using Add_grow [OF ne full, of data]
  by (simp add: Capacity_sum filters_addFilter capacity_fixed_def)

text \<open>
  C4. In a state reached from construction whose last filter has an estimated fill ratio
  at or above the threshold \<open>p\<close>, \<open>Add\<close> appends exactly one filter, constructed with the
  size hint and the rate \<open>fp * r ^ length filters\<close>, and inserts the element into that
  new filter; the capacity after the append is the old capacity plus the capacity of
  the new filter, which is a strict increase when that capacity is positive and the
  \<open>uint\<close> sum does not wrap, and it is still so after the insertion when insertions
  leave the capacity of a filter alone. Below the threshold, \<open>Add\<close> inserts into the
  existing last filter and the number of filters is unchanged.
\<close>

theorem growth_trigger:
  assumes "calls E (NewScalableBloomFilter E n fpRate ratio) cs = Inr s"
  shows "(pbf_EstimatedFillRatio E (last (filters s)) \<ge> p s \<longrightarrow>
            (\<exists>s' new. new = NewPartitionedBloomFilter E (hint s) (fp s * r s ^ length (filters s)) \<and>
               Add E s data = Inr s' \<and>
               filters (addFilter E s) = filters s @ [new] \<and>
               filters s' = filters s @ [pbf_Add E new data] \<and>
               Capacity E (addFilter E s) = Capacity E s + pbf_Capacity E new \<and>
               (capacity_fixed E \<longrightarrow> Capacity E s' = Capacity E s + pbf_Capacity E new) \<and>
               (0 < pbf_Capacity E new \<and> unat (Capacity E s) + unat (pbf_Capacity E new) < 2 ^ 64 \<longrightarrow>
                  Capacity E s < Capacity E (addFilter E s) \<and>
                  (capacity_fixed E \<longrightarrow> Capacity E s < Capacity E s')))) \<and>
         (\<not> pbf_EstimatedFillRatio E (last (filters s)) \<ge> p s \<longrightarrow>
            Add E s data = Inr (s \<lparr> filters := butlast (filters s) @ [pbf_Add E (last (filters s)) data] \<rparr>) \<and>
            length (butlast (filters s) @ [pbf_Add E (last (filters s)) data]) = length (filters s))"
proof -
  have ne: "filters s \<noteq> []" using assms by (rule reachable)
  have grow: "?thesis" if full: "pbf_EstimatedFillRatio E (last (filters s)) \<ge> p s"
  proof -
    from growth_when_full [OF ne full, of data]
    obtain s' new where *: "new = NewPartitionedBloomFilter E (hint s) (fp s * r s ^ length (filters s))"
      "Add E s data = Inr s'" "filters (addFilter E s) = filters s @ [new]"
      "filters s' = filters s @ [pbf_Add E new data]"
      "Capacity E (addFilter E s) = Capacity E s + pbf_Capacity E new"
      "capacity_fixed E \<longrightarrow> Capacity E s' = Capacity E s + pbf_Capacity E new"
      unfolding fpRate_at_def by blast
    have "Capacity E s < Capacity E s + pbf_Capacity E new"
      if "0 < pbf_Capacity E new" "unat (Capacity E s) + unat (pbf_Capacity E new) < 2 ^ 64"
      using that by (rule word_less_add)
    with * full show ?thesis by auto
  qed
  have keep: "?thesis" if low: "\<not> pbf_EstimatedFillRatio E (last (filters s)) \<ge> p s"
    using Add_keep [OF ne low, of data] low ne by simp
  from grow keep show ?thesis by blast
qed

theorem growth_trigger_witness:
  "calls demo (NewScalableBloomFilter demo 2 (1 / 100) (8 / 10)) [CallAdd [1]] = Inr demo_full \<and>
   pbf_EstimatedFillRatio demo (last (filters demo_full)) \<ge> p demo_full \<and>
   capacity_fixed demo \<and>
   Add demo demo_full [2] = Inr demo_grown \<and>
   Capacity demo demo_full < Capacity demo demo_grown \<and>
   calls demo (NewScalableBloomFilter demo 2 (1 / 100) (8 / 10)) [] = Inr demo_new \<and>
   \<not> pbf_EstimatedFillRatio demo (last (filters demo_new)) \<ge> p demo_new \<and>
   Add demo demo_new [1] = Inr demo_full"
proof -
  have run1: "calls demo (NewScalableBloomFilter demo 2 (1 / 100) (8 / 10)) [CallAdd [1]] = Inr demo_full"
    by (simp add: demo_defs)
  have full: "pbf_EstimatedFillRatio demo (last (filters demo_full)) \<ge> p demo_full"
    by (simp add: demo_defs)
  have fixed: "capacity_fixed demo"
    by (simp add: capacity_fixed_def demo_defs)
  have pos: "0 < pbf_Capacity demo (NewPartitionedBloomFilter demo (hint demo_full)
       (fp demo_full * r demo_full ^ length (filters demo_full))) \<and>
     unat (Capacity demo demo_full) + unat (pbf_Capacity demo (NewPartitionedBloomFilter demo (hint demo_full)
       (fp demo_full * r demo_full ^ length (filters demo_full)))) < 2 ^ 64"
    by (simp add: demo_defs Capacity_def)
  have add2: "Add demo demo_full [2] = Inr demo_grown"
    by (simp add: demo_defs)
  have run0: "calls demo (NewScalableBloomFilter demo 2 (1 / 100) (8 / 10)) [] = Inr demo_new"
    by (simp add: demo_defs)
  have low: "\<not> pbf_EstimatedFillRatio demo (last (filters demo_new)) \<ge> p demo_new"
    by (simp add: demo_defs)
  from growth_trigger [OF run1, of "[2]"] full fixed pos add2
  have "Capacity demo demo_full < Capacity demo demo_grown"
    by auto
  moreover from growth_trigger [OF run0, of "[1]"] low
  have "Add demo demo_new [1] = Inr demo_full"
    by (simp add: demo_defs)
  ultimately show ?thesis using run1 full fixed add2 run0 low by simp
qed

subsection \<open>Test, TestAndAdd, Reset, FillRatio\<close>

text \<open>
  C5. In every state, \<open>TestAndAdd\<close> returns the answer of \<open>Test\<close> in that state together
  with the state \<open>Add\<close> leaves (and panics exactly when \<open>Add\<close> does); the state after the
  single call is the state after the calls \<open>Test\<close> then \<open>Add\<close>.
\<close>

theorem TestAndAdd_equivalence:
  "TestAndAdd E s data = (case Add E s data of Inl e \<Rightarrow> Inl e | Inr s' \<Rightarrow> Inr (Test E s data, s')) \<and>
   calls E s [CallTestAndAdd data] = calls E s [CallTest data, CallAdd data]"
  by (simp add: TestAndAdd_def split: sum.splits)

theorem TestAndAdd_equivalence_witness:
  "TestAndAdd demo demo_full [1] = Inr (True, demo_full \<lparr> filters :=
      [\<lparr> ef_n = 2, ef_fpRate = 1 / 100, ef_items = [[1]] \<rparr>,
       \<lparr> ef_n = 2, ef_fpRate = 1 / 125, ef_items = [[1]] \<rparr>] \<rparr>) \<and>
   TestAndAdd demo demo_full [2] = Inr (False, demo_grown)"
proof -
  have "Add demo demo_full [2] = Inr demo_grown" "Test demo demo_full [2] = False"
    "Add demo demo_full [1] = Inr (demo_full \<lparr> filters :=
      [\<lparr> ef_n = 2, ef_fpRate = 1 / 100, ef_items = [[1]] \<rparr>,
       \<lparr> ef_n = 2, ef_fpRate = 1 / 125, ef_items = [[1]] \<rparr>] \<rparr>)" "Test demo demo_full [1] = True"
    by (simp_all add: demo_defs Test_def)
  then show ?thesis
    using TestAndAdd_equivalence [of demo demo_full "[1]"]
      TestAndAdd_equivalence [of demo demo_full "[2]"] by simp
qed

text \<open>
  C6. \<open>Test\<close> is true if and only if some filter of the sequence reports membership,
  false if and only if every filter reports non-membership, and the call leaves the
  state as it was.
\<close>

theorem Test_any_filter:
  "(Test E s data \<longleftrightarrow> (\<exists>bf \<in> set (filters s). pbf_Test E bf data)) \<and>
   (\<not> Test E s data \<longleftrightarrow> (\<forall>bf \<in> set (filters s). \<not> pbf_Test E bf data)) \<and>
   call_state E s (CallTest data) = Inr s"
  by (simp add: Test_def Test_loop_iff)

theorem Test_any_filter_witness:
  "Test demo demo_grown [2] \<and> \<not> pbf_Test demo (filters demo_grown ! 0) [2] \<and>
   pbf_Test demo (filters demo_grown ! 1) [2] \<and> \<not> Test demo demo_grown [3] \<and>
   call_state demo demo_grown (CallTest [2]) = Inr demo_grown"
proof -
  have "\<not> pbf_Test demo (filters demo_grown ! 0) [2]" "pbf_Test demo (filters demo_grown ! 1) [2]"
    "set (filters demo_grown) = {filters demo_grown ! 0, filters demo_grown ! 1}"
    "\<not> pbf_Test demo (filters demo_grown ! 0) [3]" "\<not> pbf_Test demo (filters demo_grown ! 1) [3]"
    by (simp_all add: demo_defs)
  then show ?thesis
    using Test_any_filter [of demo demo_grown "[2]"] Test_any_filter [of demo demo_grown "[3]"]
    by simp
qed

text \<open>
  C7. After any sequence of calls on a constructed series, \<open>Reset\<close> gives the freshly
  constructed series back: one filter, constructed with the original size hint and the
  rate of index 0, the capacity of a fresh series, and, a fresh filter reporting
  non-membership, \<open>Test\<close> false for every element.
\<close>

theorem Reset_restores_initial_shape:
  assumes "calls E (NewScalableBloomFilter E n fpRate ratio) cs = Inr s"
  shows "Reset E s = NewScalableBloomFilter E n fpRate ratio \<and>
         filters (Reset E s) = [NewPartitionedBloomFilter E n (fpRate * ratio ^ 0)] \<and>
         Capacity E (Reset E s) = Capacity E (NewScalableBloomFilter E n fpRate ratio) \<and>
         (fresh_filter_empty E \<longrightarrow> (\<forall>data. \<not> Test E (Reset E s) data))"
proof -
  note conf = reachable [OF assms]
  have eq: "Reset E s = NewScalableBloomFilter E n fpRate ratio"
    using conf by (cases s) (simp add: Reset_eq NewScalableBloomFilter_eq)
  have "\<not> Test E (NewScalableBloomFilter E n fpRate ratio) data" if "fresh_filter_empty E" for data
    using that by (simp add: NewScalableBloomFilter_eq Test_def fresh_filter_empty_def)
  then show ?thesis by (simp add: eq) (simp add: NewScalableBloomFilter_eq)
qed

theorem Reset_restores_initial_shape_witness:
  "calls demo (NewScalableBloomFilter demo 2 (1 / 100) (8 / 10)) [CallAdd [1], CallAdd [2]] = Inr demo_grown \<and>
   fresh_filter_empty demo \<and> Test demo demo_grown [1] \<and> Test demo demo_grown [2] \<and>
   Reset demo demo_grown = demo_new \<and> Capacity demo (Reset demo demo_grown) = 2 \<and>
   \<not> Test demo (Reset demo demo_grown) [1] \<and> \<not> Test demo (Reset demo demo_grown) [2]"
proof -
  have run: "calls demo (NewScalableBloomFilter demo 2 (1 / 100) (8 / 10)) [CallAdd [1], CallAdd [2]] = Inr demo_grown"
    by (simp add: demo_defs)
  have fresh: "fresh_filter_empty demo"
    by (simp add: fresh_filter_empty_def demo_defs)
  have before: "Test demo demo_grown [1]" "Test demo demo_grown [2]"
    by (simp_all add: demo_defs Test_def)
  have new: "NewScalableBloomFilter demo 2 (1 / 100) (8 / 10) = demo_new" "Capacity demo demo_new = 2"
    by (simp_all add: demo_defs Capacity_def)
  from Reset_restores_initial_shape [OF run] fresh
  have shape: "Reset demo demo_grown = NewScalableBloomFilter demo 2 (1 / 100) (8 / 10)"
    and cap: "Capacity demo (Reset demo demo_grown) =
      Capacity demo (NewScalableBloomFilter demo 2 (1 / 100) (8 / 10))"
    and gone: "\<not> Test demo (Reset demo demo_grown) [1]" "\<not> Test demo (Reset demo demo_grown) [2]"
    by blast+
  from shape cap new have "Reset demo demo_grown = demo_new" "Capacity demo (Reset demo demo_grown) = 2"
    by simp_all
  with run fresh before gone show ?thesis
    by blast
qed

text \<open>
  C9. On a series with at least one filter, \<open>FillRatio\<close> is the sum of the fill ratios of
  the filters divided by their number; the capacities of the filters play no part in
  it.
\<close>

theorem FillRatio_unweighted_mean:
  assumes "filters s \<noteq> []"
  shows "FillRatio E s =
           Float (sum_list (map (pbf_FillRatio E) (filters s)) / real (length (filters s))) \<and>
         FillRatio (E \<lparr> pbf_Capacity := c \<rparr>) s = FillRatio E s"
  using assms by (simp add: FillRatio_def fold_plus_sum_list)

theorem FillRatio_unweighted_mean_witness:
  "filters demo_grown \<noteq> [] \<and> FillRatio demo demo_grown = Float (1 / 2) \<and>
   FillRatio (demo \<lparr> pbf_Capacity := (\<lambda>f. 7) \<rparr>) demo_grown = Float (1 / 2)"
proof -
  have ne: "filters demo_grown \<noteq> []"
    by (simp add: demo_defs)
  have "sum_list (map (pbf_FillRatio demo) (filters demo_grown)) / real (length (filters demo_grown)) = 1 / 2"
    by (simp add: demo_defs)
  with FillRatio_unweighted_mean [OF ne, of demo "\<lambda>f. 7"] ne show ?thesis
    by simp
qed

subsection \<open>The configuration is never written\<close>

lemma call_state_same_configuration:
  "call_state E s c = Inr s' \<Longrightarrow> same_configuration s s'"
proof (cases c)
  case (CallTest d)
  assume "call_state E s c = Inr s'"
  with CallTest show ?thesis by (auto simp: same_configuration_def)
next
  case (CallAdd d)
  assume "call_state E s c = Inr s'"
  with CallAdd show ?thesis by (auto dest: Add_InrD(3))
next
  case (CallTestAndAdd d)
  assume "call_state E s c = Inr s'"
  with CallTestAndAdd show ?thesis
    by (auto simp: TestAndAdd_def split: sum.splits dest: Add_InrD(3))
next
  case CallReset
  assume "call_state E s c = Inr s'"
  with CallReset show ?thesis by (auto simp: Reset_eq same_configuration_def)
qed

lemma calls_same_configuration:
  "calls E s cs = Inr s' \<Longrightarrow> same_configuration s s'"
proof (induction cs arbitrary: s)
  case Nil
  then show ?case by (simp add: same_configuration_def)
next
  case (Cons c cs)
  from Cons.prems obtain s1 where s1: "call_state E s c = Inr s1" "calls E s1 cs = Inr s'"
    by (auto split: sum.splits)
  from call_state_same_configuration [OF s1(1)] Cons.IH [OF s1(2)]
  show ?case by (rule same_configuration_trans)
qed

text \<open>
  C10. Construction sets the fill threshold to the package constant \<open>fillRatio\<close>.
  \<open>Test\<close> leaves the state as it is; \<open>Add\<close>, \<open>TestAndAdd\<close>, \<open>Reset\<close> and every sequence of
  calls leave the tightening ratio, the target rate, the fill threshold and the size
  hint as they were; \<open>Reset\<close> replaces the filters by one filter built from the stored
  size hint and target rate.
\<close>

theorem configuration_unchanged:
  "p (NewScalableBloomFilter E n fpRate ratio) = fillRatio E \<and>
   call_state E s (CallTest data) = Inr s \<and>
   (\<forall>s'. Add E s data = Inr s' \<longrightarrow> same_configuration s s') \<and>
   (\<forall>b s'. TestAndAdd E s data = Inr (b, s') \<longrightarrow> same_configuration s s') \<and>
   same_configuration s (Reset E s) \<and>
   Reset E s = s \<lparr> filters := [NewPartitionedBloomFilter E (hint s) (fp s)] \<rparr> \<and>
   (\<forall>s'. calls E s cs = Inr s' \<longrightarrow> same_configuration s s')"
proof -
  have "same_configuration s s'" if "TestAndAdd E s data = Inr (b, s')" for b s'
    using that by (auto simp: TestAndAdd_def split: sum.splits dest: Add_InrD(3))
  moreover have "same_configuration s s'" if "Add E s data = Inr s'" for s'
    using that by (rule Add_InrD)
  moreover have "same_configuration s (Reset E s)"
    by (simp add: Reset_eq same_configuration_def)
  ultimately show ?thesis
    using calls_same_configuration [of E s cs]
    by (simp add: Reset_eq) (simp add: NewScalableBloomFilter_eq)
qed

theorem configuration_unchanged_witness:
  "Add demo demo_full [2] = Inr demo_grown \<and> same_configuration demo_full demo_grown \<and>
   TestAndAdd demo demo_full [2] = Inr (False, demo_grown) \<and>
   calls demo demo_new [CallAdd [1], CallTest [1], CallTestAndAdd [2]] = Inr demo_grown \<and>
   same_configuration demo_new demo_grown \<and>
   r demo_grown = 8 / 10 \<and> fp demo_grown = 1 / 100 \<and> p demo_grown = 1 / 2 \<and> hint demo_grown = 2"
proof -
  have add: "Add demo demo_full [2] = Inr demo_grown"
    and taa: "TestAndAdd demo demo_full [2] = Inr (False, demo_grown)"
    and run: "calls demo demo_new [CallAdd [1], CallTest [1], CallTestAndAdd [2]] = Inr demo_grown"
    by (simp_all add: demo_defs TestAndAdd_def Test_def)
  have fields: "r demo_grown = 8 / 10 \<and> fp demo_grown = 1 / 100 \<and> p demo_grown = 1 / 2 \<and> hint demo_grown = 2"
    by (simp add: demo_defs)
  from configuration_unchanged [of demo 2 "1 / 100" "8 / 10" demo_full "[2]" "[]"] add
  have "same_configuration demo_full demo_grown" by blast
  moreover from configuration_unchanged [of demo 2 "1 / 100" "8 / 10" demo_new "[2]"
      "[CallAdd [1], CallTest [1], CallTestAndAdd [2]]"] run
  have "same_configuration demo_new demo_grown" by blast
  ultimately show ?thesis using add taa run fields by simp
qed

end
